theory Spec2Isabelle
  imports Complex_Main "HOL-Library.Sublist"
begin

section \<open>Python values and exceptions\<close>

text \<open>
  Python \<open>str\<close> and \<open>bytes\<close> values are both modelled as \<open>string\<close> (a list of
  8-bit characters, a text in its UTF-8 encoding). The string operations the program
  uses (replacing an ASCII character, splitting at \<open>/\<close>, testing an ASCII suffix,
  concatenation) act on the UTF-8 bytes exactly as they act on the code points.
  An exception is a value of \<open>py_error\<close>; a call that may raise returns
  \<open>py_error + 'a\<close> with \<open>Inl\<close> for the exception.
\<close>

datatype py_error =
    KeyError string
  | TypeError string
  | AttributeError string
  | ValueError string
  | ClientError string

subsection \<open>Values, output and the \<open>try\<close> block\<close>

text \<open>
  The responses of the imaging service and the parsed metadata are JSON-like Python
  values. \<open>VBlob\<close> is a streaming body with the bytes its \<open>read()\<close> returns.
\<close>

datatype val =
    VNone
  | VBool bool
  | VInt int
  | VStr string
  | VBytes string
  | VList "val list"
  | VDict "(string \<times> val) list"
  | VBlob string

text \<open>
  What a method does besides returning: the call it makes on the service client (with its
  keyword arguments), the lines it prints for the operator (the format string and the
  values interpolated in it; \<open>PrintError\<close> prints a line that ends with the exception it
  caught), and the time it sleeps.
\<close>

datatype event =
    Call string "(string \<times> val) list"
  | Print string "val list"
  | PrintError string "val list" py_error
  | Sleep real

text \<open>\<open>v[k]\<close> for a string \<open>k\<close>.\<close>

fun getitem :: "val \<Rightarrow> string \<Rightarrow> py_error + val" where
  "getitem (VDict kvs) k = (case map_of kvs k of None \<Rightarrow> Inl (KeyError k) | Some v \<Rightarrow> Inr v)"
| "getitem v k = Inl (TypeError ''not subscriptable by a string'')"

text \<open>\<open>v.get(k, d)\<close>.\<close>

fun dict_get :: "val \<Rightarrow> string \<Rightarrow> val \<Rightarrow> py_error + val" where
  "dict_get (VDict kvs) k d = Inr (case map_of kvs k of None \<Rightarrow> d | Some v \<Rightarrow> v)"
| "dict_get v k d = Inl (AttributeError ''get'')"

text \<open>\<open>k in v\<close> for a string \<open>k\<close>.\<close>

fun contains :: "val \<Rightarrow> string \<Rightarrow> py_error + bool" where
  "contains (VDict kvs) k = Inr (k \<in> fst ` set kvs)"
| "contains (VList xs) k = Inr (VStr k \<in> set xs)"
| "contains (VStr s) k = Inr (sublist k s)"
| "contains v k = Inl (TypeError ''in'')"

text \<open>The truth value of \<open>v\<close> in \<open>if v\<close>, \<open>not v\<close> and \<open>a or b\<close>.\<close>

fun truthy :: "val \<Rightarrow> bool" where
  "truthy VNone = False"
| "truthy (VBool b) = b"
| "truthy (VInt i) = (i \<noteq> 0)"
| "truthy (VStr s) = (s \<noteq> [])"
| "truthy (VBytes s) = (s \<noteq> [])"
| "truthy (VList xs) = (xs \<noteq> [])"
| "truthy (VDict kvs) = (kvs \<noteq> [])"
| "truthy (VBlob s) = True"

text \<open>\<open>len(v)\<close>, and the items \<open>for x in v\<close> runs through.\<close>

fun py_len :: "val \<Rightarrow> py_error + val" where
  "py_len (VStr s) = Inr (VInt (int (length s)))"
| "py_len (VBytes s) = Inr (VInt (int (length s)))"
| "py_len (VList xs) = Inr (VInt (int (length xs)))"
| "py_len (VDict kvs) = Inr (VInt (int (length kvs)))"
| "py_len v = Inl (TypeError ''len'')"

fun iter_items :: "val \<Rightarrow> py_error + val list" where
  "iter_items (VList xs) = Inr xs"
| "iter_items (VDict kvs) = Inr (map (\<lambda>kv. VStr (fst kv)) kvs)"
| "iter_items (VStr s) = Inr (map (\<lambda>c. VStr [c]) s)"
| "iter_items (VBytes s) = Inr (map (\<lambda>c. VInt (of_char c)) s)"
| "iter_items v = Inl (TypeError ''not iterable'')"

text \<open>\<open>v.read()\<close>.\<close>

fun blob_read :: "val \<Rightarrow> py_error + val" where
  "blob_read (VBlob s) = Inr (VBytes s)"
| "blob_read v = Inl (AttributeError ''read'')"

text \<open>
  The body of a \<open>try\<close> block: the events so far and either the exception that ended it
  or its value. \<open>bind\<close> runs the next statement when the first did not raise.
\<close>

type_synonym 'a attempt = "event list \<times> (py_error + 'a)"

definition return :: "'a \<Rightarrow> 'a attempt" where
  "return v = ([], Inr v)"

definition lift :: "py_error + 'a \<Rightarrow> 'a attempt" where
  "lift r = ([], r)"

definition say :: "event list \<Rightarrow> unit attempt" where
  "say out = (out, Inr ())"

definition bind :: "'a attempt \<Rightarrow> ('a \<Rightarrow> 'b attempt) \<Rightarrow> 'b attempt" where
  "bind m f =
     (case snd m of
        Inl e \<Rightarrow> (fst m, Inl e)
      | Inr v \<Rightarrow> (fst m @ fst (f v), snd (f v)))"

fun for_each :: "('a \<Rightarrow> unit attempt) \<Rightarrow> 'a list \<Rightarrow> unit attempt" where
  "for_each f [] = return ()"
| "for_each f (x # xs) = bind (f x) (\<lambda>_. for_each f xs)"

text \<open>
  \<open>except Exception as e: print(f"label {e}"); return sentinel\<close> around a body.
\<close>

definition except :: "string \<Rightarrow> val \<Rightarrow> val attempt \<Rightarrow> event list \<times> val" where
  "except label sentinel m =
     (case snd m of
        Inr v \<Rightarrow> (fst m, v)
      | Inl e \<Rightarrow> (fst m @ [PrintError label [] e], sentinel))"

section \<open>DicomOrganizer.py: class S3DICOMOrganizer\<close>

subsection \<open>The object store\<close>

text \<open>
  A bucket maps a key to the bytes of its object. \<open>get_object_range\<close> is the ranged
  read \<open>get_object(Bucket, Key, Range='bytes=lo-hi')\<close>: it raises when the key has
  no object or when the range starts at or after the end of the object, and otherwise
  returns the bytes from \<open>lo\<close> to \<open>hi\<close> inclusive, cut at the end of the object.
\<close>

type_synonym bucket = "string \<rightharpoonup> string"

definition get_object_range :: "bucket \<Rightarrow> string \<Rightarrow> nat \<Rightarrow> nat \<Rightarrow> py_error + string" where
  "get_object_range b key lo hi =
     (case b key of
        None \<Rightarrow> Inl (ClientError ''NoSuchKey'')
      | Some body \<Rightarrow>
          if length body \<le> lo then Inl (ClientError ''InvalidRange'')
          else Inr (take (hi + 1 - lo) (drop lo body)))"

text \<open>
  A listing is the sequence of pages the paginator yields: fetching a page either raises
  or gives a page; a page has a \<open>Contents\<close> entry (the keys of its objects) or none.
\<close>

type_synonym page = "string list option"

subsection \<open>\<open>_sanitize\<close> and the destination key\<close>

definition invalid_chars :: string where
  "invalid_chars =
     [CHR ''<'', CHR ''>'', CHR '':'', CHR 0x22, CHR ''|'', CHR ''?'', CHR ''*'', CHR 0x5C]"

text \<open>\<open>text.replace(old, new)\<close> for a one-character \<open>old\<close>.\<close>

definition replace_char :: "string \<Rightarrow> char \<Rightarrow> char \<Rightarrow> string" where
  "replace_char text old new = map (\<lambda>c. if c = old then new else c) text"

text \<open>The loop \<open>for char in invalid_chars: text = text.replace(char, '_')\<close>.\<close>

definition sanitize :: "string \<Rightarrow> string" where
  "sanitize text = fold (\<lambda>char text. replace_char text char (CHR ''_'')) invalid_chars text"

text \<open>\<open>s.split(sep)\<close> for a one-character separator: never empty.\<close>

fun split_str :: "string \<Rightarrow> char \<Rightarrow> string list" where
  "split_str [] sep = [[]]"
| "split_str (c # cs) sep =
     (if c = sep then [] # split_str cs sep
      else (case split_str cs sep of
              [] \<Rightarrow> [[c]]
            | p # ps \<Rightarrow> (c # p) # ps))"

text \<open>
  The metadata record \<open>ds\<close> is read with \<open>ds.get(name, default)\<close> only. It is modelled
  by the text of the value of each data element it holds. The parser gives a value that
  holds a backslash (the delimiter of DICOM values) as a \<open>MultiValue\<close>, the list of its
  parts, and any other value as a \<open>str\<close>.
\<close>

datatype ds_value = Str string | MultiValue "string list"

type_synonym dataset = "string \<rightharpoonup> string"

definition element_value :: "string \<Rightarrow> ds_value" where
  "element_value raw =
     (if CHR 0x5C \<in> set raw then MultiValue (split_str raw (CHR 0x5C)) else Str raw)"

definition ds_get :: "dataset \<Rightarrow> string \<Rightarrow> string \<Rightarrow> ds_value" where
  "ds_get ds name dflt = (case ds name of None \<Rightarrow> Str dflt | Some raw \<Rightarrow> element_value raw)"

text \<open>
  \<open>_sanitize\<close> on what \<open>ds.get\<close> returned: a \<open>MultiValue\<close> has no \<open>replace\<close>, so the first
  \<open>text.replace\<close> raises \<open>AttributeError\<close>.
\<close>

definition sanitize_value :: "ds_value \<Rightarrow> py_error + string" where
  "sanitize_value v =
     (case v of
        Str s \<Rightarrow> Inr (sanitize s)
      | MultiValue parts \<Rightarrow> Inl (AttributeError ''replace''))"

text \<open>
  Lines 53 to 58 of \<open>organize_by_patient_study_series\<close>: the four fields are sanitized in
  order, and the first exception ends the computation with no key.
\<close>

definition new_key :: "string \<Rightarrow> dataset \<Rightarrow> py_error + string" where
  "new_key target_prefix ds =
     (case sanitize_value (ds_get ds ''PatientID'' ''Unknown_Patient'') of
        Inl e \<Rightarrow> Inl e
      | Inr patient_id \<Rightarrow>
     (case sanitize_value (ds_get ds ''StudyInstanceUID'' ''Unknown_Study'') of
        Inl e \<Rightarrow> Inl e
      | Inr study_uid \<Rightarrow>
     (case sanitize_value (ds_get ds ''SeriesInstanceUID'' ''Unknown_Series'') of
        Inl e \<Rightarrow> Inl e
      | Inr series_uid \<Rightarrow>
     (case sanitize_value (ds_get ds ''SOPInstanceUID'' ''Unknown_Instance'') of
        Inl e \<Rightarrow> Inl e
      | Inr sop_instance_uid \<Rightarrow>
          Inr (target_prefix @ ''/'' @ patient_id @ ''/'' @ study_uid @ ''/'' @ series_uid
                 @ ''/'' @ sop_instance_uid @ ''.dcm'')))))"

text \<open>
  The body of the loop over the files (lines 51 to 70). \<open>metadata\<close> is the outcome of
  \<open>_read_dicom_metadata(s3_key)\<close> and \<open>copy new_key\<close> the outcome of the \<open>copy_object\<close>
  call. Any exception is caught, printed with the key of the file, and the file is left
  where it was.
\<close>

definition organize_file ::
  "string \<Rightarrow> string \<Rightarrow> string \<Rightarrow> string \<Rightarrow> py_error + dataset
    \<Rightarrow> (string \<Rightarrow> py_error + unit) \<Rightarrow> event list" where
  "organize_file source_bucket target_bucket target_prefix s3_key metadata copy =
     (case (case metadata of Inl e \<Rightarrow> Inl e | Inr ds \<Rightarrow> new_key target_prefix ds) of
        Inl e \<Rightarrow> [PrintError ''Error processing {}: {}'' [VStr s3_key] e]
      | Inr key \<Rightarrow>
          (let call = Call ''copy_object''
                 [(''CopySource'', VDict [(''Bucket'', VStr source_bucket), (''Key'', VStr s3_key)]),
                  (''Bucket'', VStr target_bucket), (''Key'', VStr key)]
           in case copy key of
                Inl e \<Rightarrow> [call, PrintError ''Error processing {}: {}'' [VStr s3_key] e]
              | Inr u \<Rightarrow> [call, Print ''Organized: {} -> {}'' [VStr s3_key, VStr key]]))"

subsection \<open>\<open>_is_dicom_file\<close> and \<open>_list_dicom_files\<close>\<close>

definition is_dicom_file :: "bucket \<Rightarrow> string \<Rightarrow> bool" where
  "is_dicom_file b s3_key =
     (case get_object_range b s3_key 128 131 of
        Inr header \<Rightarrow> header = ''DICM''
      | Inl e \<Rightarrow> False)"

definition endswith :: "string \<Rightarrow> string \<Rightarrow> bool" where
  "endswith s suf = (length suf \<le> length s \<and> drop (length s - length suf) s = suf)"

definition dicom_suffixes :: "string list" where
  "dicom_suffixes = [''.dcm'', ''.dicom'', ''.DCM'', ''.DICOM'']"

text \<open>The test of line 93.\<close>

definition keeps_key :: "bucket \<Rightarrow> string \<Rightarrow> bool" where
  "keeps_key b key = (list_ex (endswith key) dicom_suffixes \<or> is_dicom_file b key)"

fun scan_contents :: "bucket \<Rightarrow> string list \<Rightarrow> string list \<Rightarrow> string list" where
  "scan_contents b [] dicom_files = dicom_files"
| "scan_contents b (key # objs) dicom_files =
     scan_contents b objs (if keeps_key b key then dicom_files @ [key] else dicom_files)"

fun list_dicom_pages ::
  "bucket \<Rightarrow> (py_error + page) list \<Rightarrow> string list \<Rightarrow> py_error + string list" where
  "list_dicom_pages b [] dicom_files = Inr dicom_files"
| "list_dicom_pages b (Inl e # pages) dicom_files = Inl e"
| "list_dicom_pages b (Inr None # pages) dicom_files = list_dicom_pages b pages dicom_files"
| "list_dicom_pages b (Inr (Some contents) # pages) dicom_files =
     list_dicom_pages b pages (scan_contents b contents dicom_files)"

definition list_dicom_files :: "bucket \<Rightarrow> (py_error + page) list \<Rightarrow> py_error + string list" where
  "list_dicom_files b pages = list_dicom_pages b pages []"

text \<open>
  \<open>organize_by_patient_study_series\<close>: the listing is outside the \<open>try\<close>, so an exception
  of the listing ends the method; then every listed DICOM file is organized in turn.
\<close>

definition organize_by_patient_study_series ::
  "string \<Rightarrow> string \<Rightarrow> string \<Rightarrow> bucket \<Rightarrow> (py_error + page) list
    \<Rightarrow> (string \<Rightarrow> py_error + dataset) \<Rightarrow> (string \<Rightarrow> string \<Rightarrow> py_error + unit)
    \<Rightarrow> py_error + event list" where
  "organize_by_patient_study_series source_bucket target_bucket target_prefix b pages
       read_metadata copy =
     (case list_dicom_files b pages of
        Inl e \<Rightarrow> Inl e
      | Inr dicom_files \<Rightarrow>
          Inr ([Print ''Found {} DICOM files to organize'' [VInt (int (length dicom_files))]]
               @ concat (map (\<lambda>s3_key. organize_file source_bucket target_bucket target_prefix
                                s3_key (read_metadata s3_key) (copy s3_key)) dicom_files)
               @ [Print ''Organization complete in bucket: {}/{}''
                    [VStr target_bucket, VStr target_prefix]]))"

subsection \<open>\<open>get_organized_structure\<close>\<close>

type_synonym organized = "string \<rightharpoonup> (string \<rightharpoonup> string list)"

text \<open>
  The body of the inner loop (lines 174 to 188): \<open>parts[-4]\<close>, \<open>parts[-3]\<close> and
  \<open>parts[-2]\<close> are read only when \<open>len(parts) >= 4\<close>, so they are in range.
\<close>

definition add_key :: "organized \<Rightarrow> string \<Rightarrow> organized" where
  "add_key structure key =
     (let parts = split_str key (CHR ''/'') in
      if length parts \<ge> 4 then
        let patient = parts ! (length parts - 4);
            study = parts ! (length parts - 3);
            series = parts ! (length parts - 2);
            studies = (case structure patient of None \<Rightarrow> Map.empty | Some ss \<Rightarrow> ss);
            series_list = (case studies study of None \<Rightarrow> [] | Some l \<Rightarrow> l);
            series_list' = (if series \<in> set series_list then series_list
                            else series_list @ [series])
        in structure(patient \<mapsto> studies(study \<mapsto> series_list'))
      else structure)"

fun structure_pages ::
  "(py_error + page) list \<Rightarrow> organized \<Rightarrow> py_error + organized" where
  "structure_pages [] structure = Inr structure"
| "structure_pages (Inl e # pages) structure = Inl e"
| "structure_pages (Inr None # pages) structure = structure_pages pages structure"
| "structure_pages (Inr (Some contents) # pages) structure =
     structure_pages pages (fold (\<lambda>key s. add_key s key) contents structure)"

definition get_organized_structure :: "(py_error + page) list \<Rightarrow> py_error + organized" where
  "get_organized_structure pages = structure_pages pages Map.empty"

text \<open>The keys a sequence of pages lists, in order.\<close>

definition page_keys :: "page \<Rightarrow> string list" where
  "page_keys p = (case p of None \<Rightarrow> [] | Some contents \<Rightarrow> contents)"

definition listed_keys :: "page list \<Rightarrow> string list" where
  "listed_keys ps = concat (map page_keys ps)"

section \<open>The path rule as the specification words it\<close>




subsection \<open>Reading the structure\<close>

text \<open>
  \<open>series_of\<close> is the list \<open>structure[patient][study]\<close>, empty when the patient or the
  study is not in the dictionary. \<open>names_series\<close> is the condition under which the loop
  body files a key under a patient, a study and a series (lines 175 to 181).
\<close>

definition series_of :: "organized \<Rightarrow> string \<Rightarrow> string \<Rightarrow> string list" where
  "series_of structure patient study =
     (case structure patient of
        None \<Rightarrow> []
      | Some studies \<Rightarrow> (case studies study of None \<Rightarrow> [] | Some l \<Rightarrow> l))"

definition names_series :: "string \<Rightarrow> string \<Rightarrow> string \<Rightarrow> string \<Rightarrow> bool" where
  "names_series key patient study series =
     (let parts = split_str key (CHR ''/'') in
      4 \<le> length parts \<and> parts ! (length parts - 4) = patient
        \<and> parts ! (length parts - 3) = study \<and> parts ! (length parts - 2) = series)"

text \<open>A metadata record whose patient identifier contains a slash.\<close>

definition slash_record :: dataset where
  "slash_record = [''PatientID'' \<mapsto> ''John/Doe'', ''StudyInstanceUID'' \<mapsto> ''1.2'',
     ''SeriesInstanceUID'' \<mapsto> ''1.2.3'', ''SOPInstanceUID'' \<mapsto> ''1.2.3.4'']"

section \<open>HealthImaging.py: class AWSHealthImaging\<close>

subsection \<open>The guarded operations\<close>

text \<open>
  Each method makes one call on the service client. Its outcome (the exception it raised,
  or its response) is the parameter \<open>outcome\<close>.
\<close>

definition create_datastore :: "val \<Rightarrow> py_error + val \<Rightarrow> event list \<times> val" where
  "create_datastore datastore_name outcome =
     except ''Error creating datastore: {}'' VNone
       (bind (say [Call ''create_datastore'' [(''datastoreName'', datastore_name)]]) (\<lambda>_.
        bind (lift outcome) (\<lambda>response.
        bind (lift (getitem response ''datastoreId'')) (\<lambda>datastore_id.
        bind (say [Print ''Created datastore: {}'' [datastore_id]]) (\<lambda>_.
        return datastore_id)))))"

definition import_dicom_from_s3 ::
  "val \<Rightarrow> val \<Rightarrow> val \<Rightarrow> val \<Rightarrow> py_error + val \<Rightarrow> event list \<times> val" where
  "import_dicom_from_s3 self_datastore_id input_s3_uri output_s3_uri role_arn outcome =
     except ''Error starting import job: {}'' VNone
       (bind (say [Call ''start_dicom_import_job''
                [(''datastoreId'', self_datastore_id), (''inputS3Uri'', input_s3_uri),
                 (''outputS3Uri'', output_s3_uri), (''dataAccessRoleArn'', role_arn)]]) (\<lambda>_.
        bind (lift outcome) (\<lambda>response.
        bind (lift (getitem response ''jobId'')) (\<lambda>job_id.
        bind (say [Print ''Started import job: {}'' [job_id]]) (\<lambda>_.
        return job_id)))))"

definition get_import_job_status :: "val \<Rightarrow> val \<Rightarrow> py_error + val \<Rightarrow> event list \<times> val" where
  "get_import_job_status self_datastore_id job_id outcome =
     except ''Error getting job status: {}'' VNone
       (bind (say [Call ''get_dicom_import_job''
                [(''datastoreId'', self_datastore_id), (''jobId'', job_id)]]) (\<lambda>_.
        bind (lift outcome) (\<lambda>response.
        bind (lift (getitem response ''jobProperties'')) (\<lambda>job_properties.
        bind (lift (getitem job_properties ''jobStatus'')) (\<lambda>status.
        bind (say [Print ''Job {} status: {}'' [job_id, status]]) (\<lambda>_.
        bind (lift (contains job_properties ''message'')) (\<lambda>has_message.
        bind (if has_message
              then bind (lift (getitem job_properties ''message'')) (\<lambda>message.
                   say [Print ''Message: {}'' [message]])
              else return ()) (\<lambda>_.
        return job_properties))))))))"

text \<open>The body of the loop over \<open>image_sets\<close> in \<open>search_studies\<close>.\<close>

definition print_image_set :: "val \<Rightarrow> unit attempt" where
  "print_image_set img_set =
     bind (lift (getitem img_set ''imageSetId'')) (\<lambda>image_set_id.
     bind (say [Print ''  Image Set ID: {}'' [image_set_id]]) (\<lambda>_.
     bind (lift (dict_get img_set ''version'' (VStr ''N/A''))) (\<lambda>version.
     bind (say [Print ''  Version: {}'' [version]]) (\<lambda>_.
     bind (lift (contains img_set ''DICOMTags'')) (\<lambda>has_tags.
     if has_tags then
       bind (lift (getitem img_set ''DICOMTags'')) (\<lambda>tags.
       bind (lift (dict_get tags ''DICOMPatientId'' (VStr ''N/A''))) (\<lambda>patient_id.
       bind (say [Print ''  Patient ID: {}'' [patient_id]]) (\<lambda>_.
       bind (lift (dict_get tags ''DICOMStudyDate'' (VStr ''N/A''))) (\<lambda>study_date.
       bind (say [Print ''  Study Date: {}'' [study_date]]) (\<lambda>_.
       bind (lift (dict_get tags ''DICOMStudyDescription'' (VStr ''N/A''))) (\<lambda>description.
       say [Print ''  Modality: {}'' [description]]))))))
     else return ())))))"

definition search_studies ::
  "val \<Rightarrow> val \<Rightarrow> val \<Rightarrow> py_error + val \<Rightarrow> event list \<times> val" where
  "search_studies self_datastore_id filters max_results outcome =
     except ''Error searching image sets: {}'' (VList [])
       (let params = [(''datastoreId'', self_datastore_id), (''maxResults'', max_results)]
                       @ (if truthy filters then [(''searchCriteria'', filters)] else [])
        in bind (say [Call ''search_image_sets'' params]) (\<lambda>_.
           bind (lift outcome) (\<lambda>response.
           bind (lift (dict_get response ''imageSetsMetadataSummaries'' (VList []))) (\<lambda>image_sets.
           bind (lift (py_len image_sets)) (\<lambda>n.
           bind (say [Print ''Found {} image set(s):'' [n]]) (\<lambda>_.
           bind (lift (iter_items image_sets)) (\<lambda>items.
           bind (for_each print_image_set items) (\<lambda>_.
           return image_sets))))))))"

text \<open>The nested loops of \<open>get_image_set_metadata\<close>, innermost first.\<close>

definition print_series :: "val \<Rightarrow> unit attempt" where
  "print_series series =
     bind (lift (dict_get series ''DICOM'' (VDict []))) (\<lambda>series_dicom.
     bind (say [Print ''    Series:'' []]) (\<lambda>_.
     bind (lift (dict_get series_dicom ''Modality'' (VStr ''N/A''))) (\<lambda>modality.
     bind (say [Print ''      Modality: {}'' [modality]]) (\<lambda>_.
     bind (lift (dict_get series_dicom ''SeriesDescription'' (VStr ''N/A''))) (\<lambda>description.
     bind (say [Print ''      Description: {}'' [description]]) (\<lambda>_.
     bind (lift (dict_get series ''Instances'' (VList []))) (\<lambda>instances.
     bind (lift (py_len instances)) (\<lambda>n.
     say [Print ''      Instances: {} images'' [n]]))))))))"

definition print_study :: "val \<Rightarrow> unit attempt" where
  "print_study study =
     bind (lift (dict_get study ''DICOM'' (VDict []))) (\<lambda>study_dicom.
     bind (say [Print ''  Study:'' []]) (\<lambda>_.
     bind (lift (dict_get study_dicom ''StudyDate'' (VStr ''N/A''))) (\<lambda>date.
     bind (say [Print ''    Date: {}'' [date]]) (\<lambda>_.
     bind (lift (dict_get study_dicom ''StudyDescription'' (VStr ''N/A''))) (\<lambda>description.
     bind (say [Print ''    Description: {}'' [description]]) (\<lambda>_.
     bind (lift (dict_get study ''Series'' (VList []))) (\<lambda>series_list.
     bind (lift (iter_items series_list)) (\<lambda>items.
     for_each print_series items))))))))"

definition print_patient :: "val \<Rightarrow> unit attempt" where
  "print_patient metadata =
     bind (lift (getitem metadata ''Patient'')) (\<lambda>patient.
     bind (lift (dict_get patient ''DICOM'' (VDict []))) (\<lambda>patient_dicom.
     bind (lift (dict_get patient_dicom ''PatientID'' (VStr ''N/A''))) (\<lambda>patient_id.
     bind (say [Print ''Patient ID: {}'' [patient_id]]) (\<lambda>_.
     bind (lift (dict_get patient ''Study'' (VList []))) (\<lambda>studies.
     bind (lift (iter_items studies)) (\<lambda>items.
     for_each print_study items))))))"

text \<open>
  \<open>json.loads\<close> is the parameter \<open>json_loads\<close>: the exception it raises on the bytes, or
  the value it parses them to.
\<close>

definition get_image_set_metadata ::
  "(string \<Rightarrow> py_error + val) \<Rightarrow> val \<Rightarrow> val \<Rightarrow> val \<Rightarrow> py_error + val \<Rightarrow> event list \<times> val" where
  "get_image_set_metadata json_loads self_datastore_id image_set_id version_id outcome =
     except ''Error getting image set metadata: {}'' VNone
       (let params = [(''datastoreId'', self_datastore_id), (''imageSetId'', image_set_id)]
                       @ (if truthy version_id then [(''versionId'', version_id)] else [])
        in bind (say [Call ''get_image_set_metadata'' params]) (\<lambda>_.
           bind (lift outcome) (\<lambda>response.
           bind (lift (getitem response ''imageSetMetadataBlob'')) (\<lambda>metadata_blob.
           bind (lift (blob_read metadata_blob)) (\<lambda>raw.
           bind (lift (case raw of VBytes s \<Rightarrow> json_loads s
                       | _ \<Rightarrow> Inl (TypeError ''json.loads''))) (\<lambda>metadata.
           bind (say [Print ''=== Image Set Metadata ==='' [],
                      Print ''Image Set ID: {}'' [image_set_id]]) (\<lambda>_.
           bind (lift (contains metadata ''Patient'')) (\<lambda>has_patient.
           bind (if has_patient then print_patient metadata else return ()) (\<lambda>_.
           return metadata)))))))))"

definition get_image_frame ::
  "val \<Rightarrow> val \<Rightarrow> val \<Rightarrow> py_error + val \<Rightarrow> event list \<times> val" where
  "get_image_frame self_datastore_id image_set_id image_frame_id outcome =
     except ''Error getting image frame: {}'' VNone
       (bind (say [Call ''get_image_frame''
                [(''datastoreId'', self_datastore_id), (''imageSetId'', image_set_id),
                 (''imageFrameInformation'', VDict [(''imageFrameId'', image_frame_id)])]]) (\<lambda>_.
        bind (lift outcome) (\<lambda>response.
        bind (lift (getitem response ''imageFrameBlob'')) (\<lambda>image_blob.
        bind (lift (blob_read image_blob)) (\<lambda>image_data.
        bind (lift (py_len image_data)) (\<lambda>n.
        bind (say [Print ''Retrieved image frame: {} bytes'' [n]]) (\<lambda>_.
        bind (lift (dict_get response ''contentType'' (VStr ''N/A''))) (\<lambda>content_type.
        bind (say [Print ''Content type: {}'' [content_type]]) (\<lambda>_.
        return image_data)))))))))"

definition delete_image_set :: "val \<Rightarrow> val \<Rightarrow> py_error + val \<Rightarrow> event list \<times> val" where
  "delete_image_set self_datastore_id image_set_id outcome =
     except ''Error deleting image set: {}'' (VBool False)
       (bind (say [Call ''delete_image_set''
                [(''datastoreId'', self_datastore_id), (''imageSetId'', image_set_id)]]) (\<lambda>_.
        bind (lift outcome) (\<lambda>response.
        bind (say [Print ''Deleted image set: {}'' [image_set_id]]) (\<lambda>_.
        bind (lift (getitem response ''imageSetState'')) (\<lambda>state.
        bind (say [Print ''Status: {}'' [state]]) (\<lambda>_.
        return (VBool True)))))))"

text \<open>The handler of \<open>delete_datastore\<close> prints a second line before it returns.\<close>

definition delete_datastore :: "val \<Rightarrow> val \<Rightarrow> py_error + val \<Rightarrow> event list \<times> val" where
  "delete_datastore self_datastore_id datastore_id outcome =
     (let ds_id = (if truthy datastore_id then datastore_id else self_datastore_id);
          body =
            bind (say [Call ''delete_datastore'' [(''datastoreId'', ds_id)]]) (\<lambda>_.
            bind (lift outcome) (\<lambda>response.
            bind (say [Print ''Deleted datastore: {}'' [ds_id]]) (\<lambda>_.
            bind (lift (getitem response ''datastoreStatus'')) (\<lambda>status.
            bind (say [Print ''Status: {}'' [status]]) (\<lambda>_.
            return (VBool True))))))
      in case snd body of
           Inr v \<Rightarrow> (fst body, v)
         | Inl e \<Rightarrow>
             (fst body @ [PrintError ''Error deleting datastore: {}'' [] e,
                          Print ''Note: Datastore must be empty before deletion'' []],
              VBool False))"

subsection \<open>\<open>wait_for_import_completion\<close>\<close>

text \<open>
  One run of the loop body (lines 68 to 83) on the outcome of its status call: the events,
  and the way the body ends: \<open>Some (Inr b)\<close> when it returns \<open>b\<close>, \<open>Some (Inl e)\<close> when it
  raises (\<open>time.sleep\<close> raises \<open>ValueError\<close> on a negative length), \<open>None\<close> when it
  falls through to the next test of the loop condition.
\<close>

definition wait_body ::
  "val \<Rightarrow> val \<Rightarrow> real \<Rightarrow> py_error + val \<Rightarrow> event list \<times> (py_error + bool) option" where
  "wait_body self_datastore_id job_id check_interval outcome =
     (case get_import_job_status self_datastore_id job_id outcome of
        (out, job_props) \<Rightarrow>
          if \<not> truthy job_props then (out, Some (Inr False))
          else (case getitem job_props ''jobStatus'' of
                  Inl e \<Rightarrow> (out, Some (Inl e))
                | Inr status \<Rightarrow>
                    if status = VStr ''COMPLETED'' then
                      (out @ [Print ''Import job completed successfully!'' []], Some (Inr True))
                    else if status \<in> set [VStr ''FAILED'', VStr ''COMPLETED_WITH_ERRORS''] then
                      (out @ [Print ''Import job ended with status: {}'' [status]],
                       Some (Inr False))
                    else if check_interval < 0 then
                      (out @ [Print ''Waiting... (status: {})'' [status]],
                       Some (Inl (ValueError ''sleep length must be non-negative'')))
                    else
                      (out @ [Print ''Waiting... (status: {})'' [status], Sleep check_interval],
                       None)))"

text \<open>
  The loop. \<open>outcomes k\<close> is the outcome of the \<open>k\<close>-th status call. \<open>elapsed\<close> is
  \<open>time.time() - start_time\<close> when the loop condition is tested; between two tests the
  clock advances by the sleep and by \<open>latency k\<close>, the time the \<open>k\<close>-th status call and the
  printing take. The loop need not end (a clock that never reaches \<open>max_wait\<close>), so it
  returns an option, \<open>None\<close> for a run that never returns.
\<close>

partial_function (option) wait_loop ::
  "val \<Rightarrow> (nat \<Rightarrow> py_error + val) \<Rightarrow> (nat \<Rightarrow> real) \<Rightarrow> val \<Rightarrow> real \<Rightarrow> real \<Rightarrow> real \<Rightarrow> nat
    \<Rightarrow> event list \<Rightarrow> (event list \<times> (py_error + bool)) option" where
  "wait_loop self_datastore_id outcomes latency job_id check_interval max_wait elapsed k out =
     (if elapsed < max_wait then
        (case wait_body self_datastore_id job_id check_interval (outcomes k) of
           (evs, Some r) \<Rightarrow> Some (out @ evs, r)
         | (evs, None) \<Rightarrow>
             wait_loop self_datastore_id outcomes latency job_id check_interval max_wait
               (elapsed + latency k + check_interval) (Suc k) (out @ evs))
      else Some (out @ [Print ''Max wait time exceeded'' []], Inr False))"

definition wait_for_import_completion ::
  "val \<Rightarrow> (nat \<Rightarrow> py_error + val) \<Rightarrow> (nat \<Rightarrow> real) \<Rightarrow> val \<Rightarrow> real \<Rightarrow> real
    \<Rightarrow> (event list \<times> (py_error + bool)) option" where
  "wait_for_import_completion self_datastore_id outcomes latency job_id check_interval max_wait =
     wait_loop self_datastore_id outcomes latency job_id check_interval max_wait 0 0 []"

text \<open>
  \<open>time.time() - start_time\<close> at the \<open>k\<close>-th test of the loop condition of a run that gets
  there.
\<close>

fun elapsed_at :: "(nat \<Rightarrow> real) \<Rightarrow> real \<Rightarrow> nat \<Rightarrow> real" where
  "elapsed_at latency check_interval 0 = 0"
| "elapsed_at latency check_interval (Suc k) =
     elapsed_at latency check_interval k + latency k + check_interval"

text \<open>
  The status the loop reads from the outcome of a status call: \<open>job_props['jobStatus']\<close>,
  or nothing when \<open>get_import_job_status\<close> returned a false value.
\<close>

definition observed_status :: "py_error + val \<Rightarrow> val option" where
  "observed_status outcome =
     (case get_import_job_status VNone VNone outcome of
        (out, job_props) \<Rightarrow>
          if truthy job_props then
            (case getitem job_props ''jobStatus'' of Inl e \<Rightarrow> None | Inr status \<Rightarrow> Some status)
          else None)"

text \<open>The status calls and the sleeps of a run, in order, and the number of status calls.\<close>

fun is_status_call :: "event \<Rightarrow> bool" where
  "is_status_call (Call name args) = (name = ''get_dicom_import_job'')"
| "is_status_call e = False"

fun is_sleep :: "event \<Rightarrow> bool" where
  "is_sleep (Sleep d) = True"
| "is_sleep e = False"

definition schedule :: "event list \<Rightarrow> event list" where
  "schedule out = filter (\<lambda>e. is_status_call e \<or> is_sleep e) out"

definition status_checks :: "event list \<Rightarrow> nat" where
  "status_checks out = length (filter is_status_call out)"

text \<open>\<open>sep.join(parts)\<close> for a one-character separator.\<close>

fun join_str :: "char \<Rightarrow> string list \<Rightarrow> string" where
  "join_str sep [] = []"
| "join_str sep [p] = p"
| "join_str sep (p # q # ps) = p @ sep # join_str sep (q # ps)"

section \<open>Properties of the organizer\<close>


lemma sanitize_map:
  "sanitize s = map (\<lambda>c. if c \<in> set invalid_chars then CHR ''_'' else c) s"
  by (induction s) (simp_all add: sanitize_def invalid_chars_def replace_char_def)





lemma endswith_iff: "endswith s suf \<longleftrightarrow> (\<exists>stem. s = stem @ suf)"
proof
  assume "endswith s suf"
  then have "s = take (length s - length suf) s @ suf"
    by (metis append_take_drop_id endswith_def)
  then show "\<exists>stem. s = stem @ suf" ..
next
  assume "\<exists>stem. s = stem @ suf"
  then show "endswith s suf" by (auto simp: endswith_def)
qed

lemma take4_eq:
  "take 4 xs = [a, b, c, d] \<longleftrightarrow>
     4 \<le> length xs \<and> xs ! 0 = a \<and> xs ! 1 = b \<and> xs ! 2 = c \<and> xs ! 3 = d"
proof (cases xs)
  case Nil
  then show ?thesis by simp
next
  case c1: (Cons x1 xs1)
  show ?thesis
  proof (cases xs1)
    case Nil
    with c1 show ?thesis by simp
  next
    case c2: (Cons x2 xs2)
    show ?thesis
    proof (cases xs2)
      case Nil
      with c1 c2 show ?thesis by simp
    next
      case c3: (Cons x3 xs3)
      show ?thesis
      proof (cases xs3)
        case Nil
        with c1 c2 c3 show ?thesis by simp
      next
        case (Cons x4 xs4)
        with c1 c2 c3 show ?thesis by (simp add: numeral_eq_Suc)
      qed
    qed
  qed
qed

lemma is_dicom_file_iff:
  "is_dicom_file b key \<longleftrightarrow>
     (\<exists>body. b key = Some body \<and> 132 \<le> length body \<and>
        [body ! 128, body ! 129, body ! 130, body ! 131] = ''DICM'')"
proof (cases "b key")
  case None
  then show ?thesis by (simp add: is_dicom_file_def get_object_range_def)
next
  case (Some body)
  have "take 4 (drop 128 body) = ''DICM'' \<longleftrightarrow>
          132 \<le> length body \<and> [body ! 128, body ! 129, body ! 130, body ! 131] = ''DICM''"
    by (auto simp: take4_eq)
  with Some show ?thesis
    by (auto simp: is_dicom_file_def get_object_range_def)
qed

lemma scan_contents_filter:
  "scan_contents b keys acc = acc @ filter (keeps_key b) keys"
  by (induction keys arbitrary: acc) simp_all

lemma list_dicom_pages_filter:
  "list_dicom_pages b (map Inr ps) acc = Inr (acc @ filter (keeps_key b) (listed_keys ps))"
proof (induction ps arbitrary: acc)
  case Nil
  then show ?case by (simp add: listed_keys_def)
next
  case (Cons p ps)
  then show ?case
    by (cases p) (simp_all add: listed_keys_def page_keys_def scan_contents_filter)
qed


text \<open>
  Claim C2. A listed key is kept as a DICOM file exactly when it ends with one of the
  four extensions, or its object has the bytes \<open>DICM\<close> at offsets 128 to 131; and when
  every page of the listing arrives, \<open>_list_dicom_files\<close> returns exactly the listed keys
  that pass this test, in listing order.
\<close>

theorem list_dicom_files_exact:
  "(keeps_key b key \<longleftrightarrow>
      (\<exists>stem ext. ext \<in> {''.dcm'', ''.dicom'', ''.DCM'', ''.DICOM''} \<and> key = stem @ ext)
      \<or> (\<exists>body. b key = Some body \<and> 132 \<le> length body \<and>
            [body ! 128, body ! 129, body ! 130, body ! 131] = ''DICM''))
   \<and> list_dicom_files b (map Inr ps) = Inr (filter (keeps_key b) (listed_keys ps))"
proof -
  have "list_ex (endswith key) dicom_suffixes \<longleftrightarrow>
      (\<exists>stem ext. ext \<in> {''.dcm'', ''.dicom'', ''.DCM'', ''.DICOM''} \<and> key = stem @ ext)"
    unfolding dicom_suffixes_def list_ex_iff endswith_iff by auto
  then show ?thesis
    by (simp add: keeps_key_def is_dicom_file_iff list_dicom_files_def list_dicom_pages_filter)
qed

lemma series_of_add_key:
  "series_of (add_key st key) p s =
     (if names_series key p s (split_str key (CHR ''/'') ! (length (split_str key (CHR ''/'')) - 2))
           \<and> split_str key (CHR ''/'') ! (length (split_str key (CHR ''/'')) - 2) \<notin> set (series_of st p s)
      then series_of st p s @ [split_str key (CHR ''/'') ! (length (split_str key (CHR ''/'')) - 2)]
      else series_of st p s)"
  by (auto simp: series_of_def add_key_def names_series_def Let_def split: option.splits)

lemma set_series_of_add_key:
  "r \<in> set (series_of (add_key st key) p s) \<longleftrightarrow>
     r \<in> set (series_of st p s) \<or> names_series key p s r"
  unfolding series_of_add_key by (auto simp: names_series_def Let_def)

lemma distinct_series_of_add_key:
  "distinct (series_of st p s) \<Longrightarrow> distinct (series_of (add_key st key) p s)"
  unfolding series_of_add_key by simp

lemma set_series_of_fold:
  "r \<in> set (series_of (fold (\<lambda>key s. add_key s key) keys st) p s) \<longleftrightarrow>
     r \<in> set (series_of st p s) \<or> (\<exists>key \<in> set keys. names_series key p s r)"
  by (induction keys arbitrary: st) (auto simp: set_series_of_add_key)

lemma distinct_series_of_fold:
  "distinct (series_of st p s) \<Longrightarrow>
   distinct (series_of (fold (\<lambda>key s. add_key s key) keys st) p s)"
  by (induction keys arbitrary: st) (simp_all add: distinct_series_of_add_key)

lemma structure_pages_fold:
  "structure_pages (map Inr ps) st = Inr (fold (\<lambda>key s. add_key s key) (listed_keys ps) st)"
proof (induction ps arbitrary: st)
  case Nil
  then show ?case by (simp add: listed_keys_def)
next
  case (Cons p ps)
  then show ?case by (cases p) (simp_all add: listed_keys_def page_keys_def)
qed

lemma split_str_nonempty: "split_str s sep \<noteq> []"
  by (induction s) (auto split: list.splits)

lemma split_str_append:
  "split_str (xs @ sep # ys) sep = split_str xs sep @ split_str ys sep"
proof (induction xs)
  case Nil
  then show ?case by simp
next
  case (Cons x xs)
  then show ?case
    using split_str_nonempty [of xs sep]
    by (cases "split_str xs sep") simp_all
qed

lemma sanitize_append: "sanitize (s1 @ s2) = sanitize s1 @ sanitize s2"
  by (simp add: sanitize_map)

lemma sanitize_slash: "sanitize ''/'' = ''/''"
  by (simp add: sanitize_map invalid_chars_def)

lemma new_key_slash_record:
  "new_key target_prefix slash_record = Inr (target_prefix @ ''/John/Doe/1.2/1.2.3/1.2.3.4.dcm'')"
  by (simp add: new_key_def slash_record_def ds_get_def element_value_def sanitize_value_def
      sanitize_map invalid_chars_def)

lemma split_tail: "split_str ''John/Doe/1.2/1.2.3/1.2.3.4.dcm'' (CHR ''/'') =
   [''John'', ''Doe'', ''1.2'', ''1.2.3'', ''1.2.3.4.dcm'']"
  by simp

lemma split_new_key_slash_record:
  "split_str (target_prefix @ ''/John/Doe/1.2/1.2.3/1.2.3.4.dcm'') (CHR ''/'') =
     split_str target_prefix (CHR ''/'') @ [''John'', ''Doe'', ''1.2'', ''1.2.3'', ''1.2.3.4.dcm'']"
proof -
  have "target_prefix @ ''/John/Doe/1.2/1.2.3/1.2.3.4.dcm''
          = target_prefix @ CHR ''/'' # ''John/Doe/1.2/1.2.3/1.2.3.4.dcm''"
    by simp
  then show ?thesis
    by (simp only: split_str_append split_tail)
qed

lemma names_series_slash_record:
  "names_series (target_prefix @ ''/John/Doe/1.2/1.2.3/1.2.3.4.dcm'') p s r \<longleftrightarrow>
     p = ''Doe'' \<and> s = ''1.2'' \<and> r = ''1.2.3''"
  unfolding names_series_def split_new_key_slash_record Let_def
  by (auto simp: nth_append)


lemma series_of_single:
  "series_of (add_key Map.empty key) p s =
     (if names_series key p s (split_str key (CHR ''/'') ! (length (split_str key (CHR ''/'')) - 2))
      then [split_str key (CHR ''/'') ! (length (split_str key (CHR ''/'')) - 2)] else [])"
  by (simp add: series_of_add_key) (simp add: series_of_def)

text \<open>
  Claim C7. \<open>_sanitize\<close> replaces the eight listed characters only and leaves every slash
  where it is. So there is a metadata record with a slash in its patient identifier whose
  destination key has more than four segments below the target prefix, and
  \<open>get_organized_structure\<close> files that key under a patient, study and series other than
  the sanitized fields it was organized under.
\<close>

theorem sanitize_keeps_slash:
  "sanitize s = map (\<lambda>c. if c \<in> set invalid_chars then CHR ''_'' else c) s
   \<and> CHR ''/'' \<notin> set invalid_chars
   \<and> sanitize (s1 @ ''/'' @ s2) = sanitize s1 @ ''/'' @ sanitize s2
   \<and> (\<exists>ds patient study series key.
         ds ''PatientID'' = Some patient \<and> ds ''StudyInstanceUID'' = Some study
       \<and> ds ''SeriesInstanceUID'' = Some series \<and> CHR ''/'' \<in> set patient
       \<and> new_key target_prefix ds = Inr key
       \<and> 4 < length (split_str (drop (length target_prefix + 1) key) (CHR ''/''))
       \<and> (\<exists>structure p' s' r'.
             get_organized_structure [Inr (Some [key])] = Inr structure
           \<and> series_of structure p' s' = [r']
           \<and> (p', s', r') \<noteq> (sanitize patient, sanitize study, sanitize series)
           \<and> series_of structure (sanitize patient) (sanitize study) = []))"
proof -
  let ?key = "target_prefix @ ''/John/Doe/1.2/1.2.3/1.2.3.4.dcm''"
  have parts: "split_str ?key (CHR ''/'') ! (length (split_str ?key (CHR ''/'')) - 2) = ''1.2.3''"
    unfolding split_new_key_slash_record by (simp add: nth_append)
  have below: "4 < length (split_str (drop (length target_prefix + 1) ?key) (CHR ''/''))"
    by simp
  have st: "get_organized_structure [Inr (Some [?key])] = Inr (add_key Map.empty ?key)"
    by (simp add: get_organized_structure_def)
  have placed: "series_of (add_key Map.empty ?key) ''Doe'' ''1.2'' = [''1.2.3'']"
    unfolding series_of_single names_series_slash_record parts by simp
  have san: "sanitize ''John/Doe'' = ''John/Doe''" "sanitize ''1.2'' = ''1.2''"
    "sanitize ''1.2.3'' = ''1.2.3''"
    by (simp_all add: sanitize_map invalid_chars_def)
  have missing: "series_of (add_key Map.empty ?key) (sanitize ''John/Doe'') (sanitize ''1.2'') = []"
    unfolding series_of_single names_series_slash_record san by simp
  have ex: "\<exists>ds patient study series key.
         ds ''PatientID'' = Some patient \<and> ds ''StudyInstanceUID'' = Some study
       \<and> ds ''SeriesInstanceUID'' = Some series \<and> CHR ''/'' \<in> set patient
       \<and> new_key target_prefix ds = Inr key
       \<and> 4 < length (split_str (drop (length target_prefix + 1) key) (CHR ''/''))
       \<and> (\<exists>structure p' s' r'.
             get_organized_structure [Inr (Some [key])] = Inr structure
           \<and> series_of structure p' s' = [r']
           \<and> (p', s', r') \<noteq> (sanitize patient, sanitize study, sanitize series)
           \<and> series_of structure (sanitize patient) (sanitize study) = [])"
    apply (rule exI [of _ slash_record])
    apply (rule exI [of _ "''John/Doe''"])
    apply (rule exI [of _ "''1.2''"])
    apply (rule exI [of _ "''1.2.3''"])
    apply (rule exI [of _ ?key])
    apply (intro conjI)
          apply (simp add: slash_record_def)
         apply (simp add: slash_record_def)
        apply (simp add: slash_record_def)
       apply simp
      apply (rule new_key_slash_record)
     apply (rule below)
    apply (rule exI [of _ "add_key Map.empty ?key"])
    apply (rule exI [of _ "''Doe''"])
    apply (rule exI [of _ "''1.2''"])
    apply (rule exI [of _ "''1.2.3''"])
    apply (intro conjI)
       apply (rule st)
      apply (rule placed)
     apply (simp add: san)
    apply (rule missing)
    done
  have slash: "CHR ''/'' \<notin> set invalid_chars"
    by (simp add: invalid_chars_def)
  have app: "sanitize (s1 @ ''/'' @ s2) = sanitize s1 @ ''/'' @ sanitize s2"
    by (simp add: sanitize_map invalid_chars_def)
  from sanitize_map [of s] slash app ex show ?thesis
    by (intro conjI)
qed

lemma split_str_plain: "sep \<notin> set s \<Longrightarrow> split_str s sep = [s]"
  by (induction s) auto

lemma split_str_parts_plain: "p \<in> set (split_str s sep) \<Longrightarrow> sep \<notin> set p"
proof (induction s arbitrary: p)
  case Nil
  then show ?case by simp
next
  case (Cons c cs)
  show ?case
  proof (cases "c = sep")
    case True
    with Cons show ?thesis by auto
  next
    case False
    with Cons split_str_nonempty [of cs sep] show ?thesis
      by (cases "split_str cs sep") auto
  qed
qed

lemma join_split_str: "join_str sep (split_str s sep) = s"
proof (induction s)
  case Nil
  then show ?case by simp
next
  case (Cons c cs)
  show ?case
  proof (cases "c = sep")
    case True
    with Cons split_str_nonempty [of cs sep] show ?thesis
      by (cases "split_str cs sep") auto
  next
    case False
    with Cons split_str_nonempty [of cs sep] show ?thesis
      by (cases "split_str cs sep"; cases "tl (split_str cs sep)") auto
  qed
qed

lemma join_str_append:
  "xs \<noteq> [] \<Longrightarrow> ys \<noteq> [] \<Longrightarrow> join_str sep (xs @ ys) = join_str sep xs @ sep # join_str sep ys"
proof (induction xs rule: join_str.induct)
  case (1 sep)
  then show ?case by simp
next
  case (2 sep p)
  then show ?case by (cases ys) simp_all
next
  case (3 sep p q ps)
  then show ?case by simp
qed


lemma last_four:
  assumes "4 \<le> length xs"
  shows "xs = take (length xs - 4) xs
           @ [xs ! (length xs - 4), xs ! (length xs - 3), xs ! (length xs - 2), xs ! (length xs - 1)]"
proof -
  define k where "k = length xs - 4"
  define ys where "ys = drop k xs"
  have len: "length ys = 4" using assms by (simp add: ys_def k_def)
  have nth: "ys ! i = xs ! (k + i)" if "i < 4" for i
    using that assms by (simp add: ys_def k_def)
  have "take 4 ys = [ys ! 0, ys ! 1, ys ! 2, ys ! 3]"
    unfolding take4_eq using len by simp
  then have "ys = [ys ! 0, ys ! 1, ys ! 2, ys ! 3]"
    using len by simp
  then have "ys = [xs ! k, xs ! (k + 1), xs ! (k + 2), xs ! (k + 3)]"
    using nth [of 0] nth [of 1] nth [of 2] nth [of 3] by simp
  moreover have "k + 1 = length xs - 3" "k + 2 = length xs - 2" "k + 3 = length xs - 1"
    using assms by (simp_all add: k_def)
  moreover have "xs = take k xs @ ys" by (simp add: ys_def)
  ultimately show ?thesis by (simp add: k_def)
qed

lemma names_series_iff:
  "names_series key p s r \<longleftrightarrow>
     (\<exists>pre leaf. key = pre @ p @ ''/'' @ s @ ''/'' @ r @ ''/'' @ leaf
        \<and> (pre = [] \<or> (\<exists>q. pre = q @ ''/''))
        \<and> CHR ''/'' \<notin> set p \<and> CHR ''/'' \<notin> set s \<and> CHR ''/'' \<notin> set r
        \<and> CHR ''/'' \<notin> set leaf)"
  (is "?lhs \<longleftrightarrow> ?rhs")
proof
  assume ?lhs
  define parts where "parts = split_str key (CHR ''/'')"
  define n where "n = length parts"
  define leaf where "leaf = parts ! (n - 1)"
  define front where "front = take (n - 4) parts"
  from \<open>?lhs\<close> have n4: "4 \<le> n" and p: "parts ! (n - 4) = p" and s: "parts ! (n - 3) = s"
    and r: "parts ! (n - 2) = r"
    by (simp_all add: names_series_def Let_def parts_def n_def)
  have parts: "parts = front @ [p, s, r, leaf]"
    using last_four [of parts] n4 p s r by (simp add: n_def front_def leaf_def)
  have plain: "CHR ''/'' \<notin> set x" if "x \<in> set parts" for x
    using that unfolding parts_def by (rule split_str_parts_plain)
  have key: "key = join_str (CHR ''/'') parts"
    by (simp add: parts_def join_split_str)
  have tail: "join_str (CHR ''/'') [p, s, r, leaf] = p @ ''/'' @ s @ ''/'' @ r @ ''/'' @ leaf"
    by simp
  have mem: "p \<in> set parts" "s \<in> set parts" "r \<in> set parts" "leaf \<in> set parts"
    by (subst parts, simp)+
  show ?rhs
  proof (cases "front = []")
    case True
    then have "key = [] @ p @ ''/'' @ s @ ''/'' @ r @ ''/'' @ leaf"
      using key parts tail by simp
    with mem plain show ?thesis by blast
  next
    case False
    then have "key = (join_str (CHR ''/'') front @ ''/'') @ p @ ''/'' @ s @ ''/'' @ r @ ''/'' @ leaf"
      using key parts tail by (simp add: join_str_append)
    with mem plain show ?thesis by blast
  qed
next
  assume ?rhs
  then obtain pre leaf where key: "key = pre @ p @ ''/'' @ s @ ''/'' @ r @ ''/'' @ leaf"
    and pre: "pre = [] \<or> (\<exists>q. pre = q @ ''/'')"
    and plain: "CHR ''/'' \<notin> set p" "CHR ''/'' \<notin> set s" "CHR ''/'' \<notin> set r"
      "CHR ''/'' \<notin> set leaf"
    by blast
  have tail: "split_str (p @ ''/'' @ s @ ''/'' @ r @ ''/'' @ leaf) (CHR ''/'') = [p, s, r, leaf]"
    using plain by (simp add: split_str_append split_str_plain)
  from pre show ?lhs
  proof
    assume "pre = []"
    then show ?thesis
      using tail by (simp add: names_series_def key)
  next
    assume "\<exists>q. pre = q @ ''/''"
    then obtain q where "pre = q @ ''/''" ..
    then have "key = q @ CHR ''/'' # (p @ ''/'' @ s @ ''/'' @ r @ ''/'' @ leaf)"
      by (simp add: key)
    then have "split_str key (CHR ''/'') = split_str q (CHR ''/'') @ [p, s, r, leaf]"
      using tail by (simp only: split_str_append)
    then show ?thesis
      by (simp add: names_series_def nth_append)
  qed
qed


text \<open>
  Claim C5. When every page of the listing arrives, \<open>get_organized_structure\<close> returns a
  grouping in which the series list of every patient and study has no duplicates, and a
  series is in the list of a patient and a study exactly when some listed key has at least
  four slash-separated components of which the fourth, third and second from the end are
  that patient, study and series: the key ends with the patient, the study, the series
  and one more component, none of them holding a slash, joined by slashes, and what comes
  before them is empty or ends with a slash.
\<close>

theorem get_organized_structure_grouping:
  "\<exists>structure. get_organized_structure (map Inr ps) = Inr structure
     \<and> distinct (series_of structure patient study)
     \<and> (series \<in> set (series_of structure patient study) \<longleftrightarrow>
          (\<exists>key \<in> set (listed_keys ps). \<exists>pre leaf.
              key = pre @ patient @ ''/'' @ study @ ''/'' @ series @ ''/'' @ leaf
            \<and> (pre = [] \<or> (\<exists>q. pre = q @ ''/''))
            \<and> CHR ''/'' \<notin> set patient \<and> CHR ''/'' \<notin> set study
            \<and> CHR ''/'' \<notin> set series \<and> CHR ''/'' \<notin> set leaf))"
proof -
  have e: "series_of Map.empty patient study = []"
    by (simp add: series_of_def)
  show ?thesis
    unfolding names_series_iff [symmetric]
    by (simp add: get_organized_structure_def structure_pages_fold set_series_of_fold
        distinct_series_of_fold e)
qed

end
